theory Spec2Isabelle
  imports Complex_Main "HOL-Library.Multiset"
begin

section \<open>GrayNorm: the table, the normalization factors and the ranking\<close>

text \<open>
  A shallow embedding of \<^verbatim>\<open>graynorm.py\<close> (Python 2). Python floats are modelled as
  \<^typ>\<open>real\<close>: all statements are about exact arithmetic, so rounding, overflow, infinities,
  NaN and signed zero are outside the model. The theorems therefore state the values that
  a call returns when it returns, and the exceptions of calls whose outcome rounding and
  range cannot change; where an outcome depends on the range of a float or on the sign of
  a zero, the statement carries that condition. Every exception of the code that exact
  arithmetic can reach is a value of \<open>py_error\<close> (\<^verbatim>\<open>OverflowError\<close> is not among them), and a
  function that may raise returns \<open>py_error + 'a\<close>.

  Two builtins of Python are parameters of the model: \<open>fl\<close> is \<^verbatim>\<open>float()\<close> on a
  string (\<open>None\<close> when it raises \<^verbatim>\<open>ValueError\<close>), and \<open>str\<close> is \<^verbatim>\<open>str()\<close> on a list of
  condition values.
\<close>

subsection \<open>Values and errors\<close>

datatype py_error =
    ZeroDivisionError
  | ValueError
  | TypeError
  | IndexError
  | AttributeError
  | SystemExit nat

text \<open>A cell of a row: a float, or a string as the CSV reader delivers it.\<close>

datatype cell = Num real | Str string

text \<open>\<^verbatim>\<open>float(x)\<close>: the identity on a float, the parser \<open>fl\<close> on a string.\<close>

fun py_float :: "(string \<Rightarrow> real option) \<Rightarrow> cell \<Rightarrow> real option" where
  "py_float fl (Num v) = Some v"
| "py_float fl (Str s) = fl s"

text \<open>\<^verbatim>\<open>x / y\<close> on floats.\<close>

definition py_div :: "real \<Rightarrow> real \<Rightarrow> py_error + real" where
  "py_div x y = (if y = 0 then Inl ZeroDivisionError else Inr (x / y))"

text \<open>
  \<^verbatim>\<open>x ** y\<close> on floats (CPython's \<^verbatim>\<open>float_pow\<close>): anything to the power 0 is 1, zero to
  a negative power raises \<^verbatim>\<open>ZeroDivisionError\<close>, a negative base with a fractional
  exponent raises \<^verbatim>\<open>ValueError\<close>.
\<close>

definition py_pow :: "real \<Rightarrow> real \<Rightarrow> py_error + real" where
  "py_pow x y =
     (if y = 0 then Inr 1
      else if x = 0 then (if y < 0 then Inl ZeroDivisionError else Inr 0)
      else if x < 0 then
        (if y \<noteq> of_int \<lfloor>y\<rfloor> then Inl ValueError else Inr (x powi \<lfloor>y\<rfloor>))
      else Inr (x powr y))"

text \<open>\<^verbatim>\<open>xs[i]\<close> for an index \<open>i \<ge> 0\<close>.\<close>

definition py_nth :: "'a list \<Rightarrow> nat \<Rightarrow> py_error + 'a" where
  "py_nth xs i = (if i < length xs then Inr (xs ! i) else Inl IndexError)"

text \<open>
  A loop or list comprehension that appends \<open>f x\<close> for each \<open>x\<close>, left to right; the
  first exception ends it.
\<close>

fun map_res :: "('a \<Rightarrow> 'e + 'b) \<Rightarrow> 'a list \<Rightarrow> 'e + 'b list" where
  "map_res f [] = Inr []"
| "map_res f (x # xs) =
     (case f x of
        Inl e \<Rightarrow> Inl e
      | Inr y \<Rightarrow> (case map_res f xs of Inl e \<Rightarrow> Inl e | Inr ys \<Rightarrow> Inr (y # ys)))"

subsection \<open>The table\<close>

record Data =
  headers :: "string list"
  non_data :: "string list"
  data :: "cell list list"
  control_idx :: "nat list"
  cond_idx :: "nat list"
  cond_groups :: "string \<rightharpoonup> nat list"
  cond_group_idx :: "cell list list"
  control_cond_vals :: "cell list option"

text \<open>\<^verbatim>\<open>Data.__init__\<close>; the attribute \<^verbatim>\<open>_control_cond_vals\<close> does not exist yet.\<close>

definition Data_init :: "string list \<Rightarrow> Data" where
  "Data_init hs =
     \<lparr>headers = hs, non_data = [], data = [], control_idx = [], cond_idx = [],
      cond_groups = Map.empty, cond_group_idx = [], control_cond_vals = None\<rparr>"

definition set_sample_col_name :: "string \<Rightarrow> Data \<Rightarrow> Data" where
  "set_sample_col_name sample d = d\<lparr>non_data := non_data d @ [sample]\<rparr>"

definition set_condition_col_names :: "string list \<Rightarrow> Data \<Rightarrow> Data" where
  "set_condition_col_names conditions d =
     d\<lparr>cond_idx := map fst (filter (\<lambda>(idx, header). header \<in> set conditions)
                                 (enumerate 0 (headers d))),
       non_data := non_data d @ conditions\<rparr>"

definition set_control_vals :: "cell list \<Rightarrow> Data \<Rightarrow> Data" where
  "set_control_vals vals d = d\<lparr>control_cond_vals := Some vals\<rparr>"

text \<open>The table as \<^verbatim>\<open>read_file\<close> configures it before the first row.\<close>

definition configure :: "string list \<Rightarrow> string \<Rightarrow> string list \<Rightarrow> cell list \<Rightarrow> Data" where
  "configure hs sample conditions vals =
     set_control_vals vals
       (set_condition_col_names conditions (set_sample_col_name sample (Data_init hs)))"

text \<open>
  The first loop of \<^verbatim>\<open>Data.add\<close>: every cell whose header is not in \<^verbatim>\<open>_non_data\<close> is
  replaced by its float.
\<close>

fun coerce_loop ::
  "(string \<Rightarrow> real option) \<Rightarrow> string list \<Rightarrow> (nat \<times> string) list \<Rightarrow> cell list
     \<Rightarrow> py_error + cell list" where
  "coerce_loop fl nd [] row = Inr row"
| "coerce_loop fl nd ((idx, header) # rest) row =
     (if header \<notin> set nd then
        (if idx < length row then
           (case py_float fl (row ! idx) of
              None \<Rightarrow> Inl ValueError
            | Some v \<Rightarrow> coerce_loop fl nd rest (row[idx := Num v]))
         else Inl IndexError)
      else coerce_loop fl nd rest row)"

text \<open>
  The second loop of \<^verbatim>\<open>Data.add\<close>: the condition values of a row, each as a float
  where \<^verbatim>\<open>float()\<close> accepts it and unchanged otherwise.
\<close>

definition cond_values_of ::
  "(string \<Rightarrow> real option) \<Rightarrow> nat list \<Rightarrow> cell list \<Rightarrow> py_error + cell list" where
  "cond_values_of fl cidx row =
     map_res (\<lambda>x. if x < length row
                   then Inr (case py_float fl (row ! x) of Some v \<Rightarrow> Num v | None \<Rightarrow> row ! x)
                   else Inl IndexError) cidx"

definition add ::
  "(string \<Rightarrow> real option) \<Rightarrow> (cell list \<Rightarrow> string) \<Rightarrow> Data \<Rightarrow> cell list \<Rightarrow> py_error + Data" where
  "add fl str d row0 =
     (case coerce_loop fl (non_data d) (enumerate 0 (headers d)) row0 of
        Inl e \<Rightarrow> Inl e
      | Inr row \<Rightarrow>
          (case cond_values_of fl (cond_idx d) row of
             Inl e \<Rightarrow> Inl e
           | Inr cond_values \<Rightarrow>
               (case control_cond_vals d of
                  None \<Rightarrow> Inl AttributeError
                | Some control \<Rightarrow>
                    let n = length (data d);
                        cond_label = str cond_values
                    in Inr (d\<lparr>control_idx :=
                                (if control = cond_values then control_idx d @ [n]
                                 else control_idx d),
                              cond_group_idx :=
                                (if cond_groups d cond_label = None
                                 then cond_group_idx d @ [cond_values]
                                 else cond_group_idx d),
                              cond_groups :=
                                (cond_groups d)(cond_label \<mapsto>
                                   (case cond_groups d cond_label of
                                      None \<Rightarrow> [] | Some g \<Rightarrow> g) @ [n]),
                              data := data d @ [row]\<rparr>))))"

text \<open>The rows of the file, added one after the other (the second loop of \<^verbatim>\<open>read_file\<close>).\<close>

fun add_rows ::
  "(string \<Rightarrow> real option) \<Rightarrow> (cell list \<Rightarrow> string) \<Rightarrow> Data \<Rightarrow> cell list list
     \<Rightarrow> py_error + Data" where
  "add_rows fl str d [] = Inr d"
| "add_rows fl str d (row # rows) =
     (case add fl str d row of Inl e \<Rightarrow> Inl e | Inr d' \<Rightarrow> add_rows fl str d' rows)"

definition condition_values :: "Data \<Rightarrow> cell list list" where
  "condition_values d = cond_group_idx d"

definition nr_conditions :: "Data \<Rightarrow> nat" where
  "nr_conditions d = length (cond_group_idx d)"

definition control_rows :: "Data \<Rightarrow> nat list" where
  "control_rows d = control_idx d"

text \<open>\<^verbatim>\<open>condition_group\<close> ends the process with status 1 on an unknown label.\<close>

definition condition_group :: "(cell list \<Rightarrow> string) \<Rightarrow> Data \<Rightarrow> cell list \<Rightarrow> py_error + nat list" where
  "condition_group str d cond_values =
     (case cond_groups d (str cond_values) of
        Some g \<Rightarrow> Inr g
      | None \<Rightarrow> Inl (SystemExit 1))"

subsection \<open>Normalization factors\<close>

text \<open>\<^verbatim>\<open>itertools.compress\<close>: the items whose selector is true, up to the shorter input.\<close>

definition compress :: "'a list \<Rightarrow> bool list \<Rightarrow> 'a list" where
  "compress xs sel = map fst (filter snd (zip xs sel))"

text \<open>
  \<^verbatim>\<open>reduce(lambda x, y: x*y, cells, acc)\<close>: a float times a string raises
  \<^verbatim>\<open>TypeError\<close>.
\<close>

fun reduce_mul :: "cell list \<Rightarrow> real \<Rightarrow> py_error + real" where
  "reduce_mul [] acc = Inr acc"
| "reduce_mul (Num y # cs) acc = reduce_mul cs (acc * y)"
| "reduce_mul (Str s # cs) acc = Inl TypeError"

definition col_sel :: "Data \<Rightarrow> string list \<Rightarrow> bool list" where
  "col_sel d genes = map (\<lambda>header. header \<in> set genes) (headers d)"

definition compute_nf :: "Data \<Rightarrow> string list \<Rightarrow> py_error + real list" where
  "compute_nf d genes =
     map_res (\<lambda>row.
        case reduce_mul (compress row (col_sel d genes)) 1 of
          Inl e \<Rightarrow> Inl e
        | Inr p \<Rightarrow>
            (if length genes = 0 then Inl ZeroDivisionError
             else py_pow p (1 / real (length genes))))
       (data d)"

definition compute_inv_nf :: "Data \<Rightarrow> string list \<Rightarrow> py_error + real list" where
  "compute_inv_nf d genes =
     (case compute_nf d genes of
        Inl e \<Rightarrow> Inl e
      | Inr nfs \<Rightarrow> map_res (\<lambda>x. py_div 1 x) nfs)"

text \<open>
  \<^verbatim>\<open>sum([])\<close> is the integer 0, and dividing it by \<^verbatim>\<open>len(self.control_rows)\<close> = 0 raises
  \<^verbatim>\<open>ZeroDivisionError\<close>.
\<close>

definition compute_inv_nf_vs_control :: "Data \<Rightarrow> string list \<Rightarrow> py_error + real list" where
  "compute_inv_nf_vs_control d genes =
     (case compute_inv_nf d genes of
        Inl e \<Rightarrow> Inl e
      | Inr inv_nfs \<Rightarrow>
          (case map_res (py_nth inv_nfs) (control_rows d) of
             Inl e \<Rightarrow> Inl e
           | Inr sel \<Rightarrow>
               (if length (control_rows d) = 0 then Inl ZeroDivisionError
                else let avg_control = sum_list sel / real (length (control_rows d))
                     in map_res (\<lambda>x. py_div x avg_control) inv_nfs)))"

subsection \<open>Statistics\<close>

text \<open>
  \<^verbatim>\<open>compute_stats\<close>. With no number, \<^verbatim>\<open>s**2/n\<close> divides the integer 0 by 0; with one
  number, \<^verbatim>\<open>n - 1.0\<close> is 0.0; \<^verbatim>\<open>math.sqrt\<close> of a negative number raises \<^verbatim>\<open>ValueError\<close>.
  In exact arithmetic the radicand of two or more numbers is never negative; with floats it
  may round below zero, and \<^verbatim>\<open>x**2\<close> raises \<^verbatim>\<open>OverflowError\<close> out of the range of a float.
\<close>

definition compute_stats :: "real list \<Rightarrow> py_error + real \<times> real \<times> real" where
  "compute_stats numbers =
     (let n = length numbers;
          s = sum_list numbers;
          s2 = sum_list (map (\<lambda>x. x\<^sup>2) numbers)
      in if n = 0 then Inl ZeroDivisionError
         else if real n - 1 = 0 then Inl ZeroDivisionError
         else if (s2 - s\<^sup>2 / real n) / (real n - 1) < 0 then Inl ValueError
         else let stddev = sqrt ((s2 - s\<^sup>2 / real n) / (real n - 1))
              in Inr (s / real n, stddev, stddev / sqrt (real n)))"

record cond_stats =
  cond :: "cell list"
  avg :: real
  stddev :: real
  stderr :: real
  cv_intra :: real

definition compute_condition_stats ::
  "(cell list \<Rightarrow> string) \<Rightarrow> Data \<Rightarrow> string list \<Rightarrow> py_error + cond_stats list" where
  "compute_condition_stats str d genes =
     (case compute_inv_nf_vs_control d genes of
        Inl e \<Rightarrow> Inl e
      | Inr inv_nfs_vs_ctrl \<Rightarrow>
          map_res (\<lambda>cond_values.
             case condition_group str d cond_values of
               Inl e \<Rightarrow> Inl e
             | Inr g \<Rightarrow>
                 (case map_res (py_nth inv_nfs_vs_ctrl) g of
                    Inl e \<Rightarrow> Inl e
                  | Inr numbers \<Rightarrow>
                      (case compute_stats numbers of
                         Inl e \<Rightarrow> Inl e
                       | Inr (a, sd, se) \<Rightarrow>
                           (case py_div sd a of
                              Inl e \<Rightarrow> Inl e
                            | Inr cv \<Rightarrow>
                                Inr \<lparr>cond = cond_values, avg = a, stddev = sd,
                                     stderr = se, cv_intra = cv\<rparr>))))
            (condition_values d))"

record overall_stats =
  overall_avg :: real
  overall_stddev :: real
  cumm :: real
  cv_inter :: real

definition compute_overall_stats ::
  "(cell list \<Rightarrow> string) \<Rightarrow> Data \<Rightarrow> string list \<Rightarrow> py_error + overall_stats" where
  "compute_overall_stats str d genes =
     (case compute_condition_stats str d genes of
        Inl e \<Rightarrow> Inl e
      | Inr stats \<Rightarrow>
          (let avgs = map avg stats
           in case compute_stats avgs of
                Inl e \<Rightarrow> Inl e
              | Inr (a, sd, se) \<Rightarrow>
                  (let c = sum_list (map (\<lambda>x. \<bar>1 - x\<bar>) avgs)
                   in case py_div sd a of
                        Inl e \<Rightarrow> Inl e
                      | Inr cv \<Rightarrow>
                          Inr \<lparr>overall_avg = a, overall_stddev = sd, cumm = c,
                               cv_inter = cv\<rparr>)))"

subsection \<open>Ranking all gene combinations\<close>


record gene_combination =
  genes :: "string list"
  conds :: "cond_stats list"
  overall :: overall_stats



subsection \<open>The words of the specification\<close>

text \<open>
  The geometric mean of a list of numbers: the root, of the order of the length, of the
  product.
\<close>

definition geometric_mean :: "real list \<Rightarrow> real" where
  "geometric_mean vs = root (length vs) (prod_list vs)"

text \<open>
  The arithmetic mean and the sample standard deviation in their textbook form, the squared
  deviations from the mean divided by \<open>n - 1\<close>.
\<close>

definition mean :: "real list \<Rightarrow> real" where
  "mean xs = sum_list xs / real (length xs)"

definition sample_stddev :: "real list \<Rightarrow> real" where
  "sample_stddev xs =
     sqrt (sum_list (map (\<lambda>x. (x - mean xs)\<^sup>2) xs) / (real (length xs) - 1))"

text \<open>
  The distinct elements of a list, in the order of their first occurrence.
\<close>

fun first_seen :: "'a list \<Rightarrow> 'a list" where
  "first_seen [] = []"
| "first_seen (x # xs) = x # filter (\<lambda>y. y \<noteq> x) (first_seen xs)"

subsection \<open>The rows seen by the table\<close>

text \<open>
  The condition values that \<^verbatim>\<open>Data.add\<close> computes for a row: both loops, one after the
  other.
\<close>

definition row_cond_values ::
  "(string \<Rightarrow> real option) \<Rightarrow> Data \<Rightarrow> cell list \<Rightarrow> py_error + cell list" where
  "row_cond_values fl d row0 =
     (case coerce_loop fl (non_data d) (enumerate 0 (headers d)) row0 of
        Inl e \<Rightarrow> Inl e
      | Inr row \<Rightarrow> cond_values_of fl (cond_idx d) row)"

text \<open>
  What a table holds once the rows with the condition values \<open>ts\<close> have been added: the
  control rows are the rows whose condition values equal the control values, the group of a
  label holds the rows with that label in increasing order, and the catalogue of condition
  values lists the distinct ones in first-seen order when \<^verbatim>\<open>str\<close> tells them apart.
\<close>

definition groups_inv :: "(cell list \<Rightarrow> string) \<Rightarrow> Data \<Rightarrow> cell list list \<Rightarrow> bool" where
  "groups_inv str d ts \<longleftrightarrow>
     length (data d) = length ts
   \<and> control_idx d = filter (\<lambda>i. Some (ts ! i) = control_cond_vals d) [0 ..< length ts]
   \<and> cond_groups d =
       (\<lambda>l. if l \<in> str ` set ts
            then Some (filter (\<lambda>i. str (ts ! i) = l) [0 ..< length ts]) else None)
   \<and> (inj_on str (set ts) \<longrightarrow> cond_group_idx d = first_seen ts)"


subsection \<open>An example table\<close>

text \<open>
  Four samples in two conditions, two of them controls, with two genes. \<open>ex_float\<close> and
  \<open>ex_str\<close> are \<^verbatim>\<open>float()\<close> and \<^verbatim>\<open>str()\<close> on the strings and lists that occur in the example.
\<close>

definition ex_float :: "string \<Rightarrow> real option" where
  "ex_float = map_of [(''0'', 0), (''1'', 1), (''2'', 2), (''8'', 8)]"

definition ex_str :: "cell list \<Rightarrow> string" where
  "ex_str cv = (if cv = [Num 0] then ''[0.0]'' else if cv = [Num 1] then ''[1.0]'' else ''[]'')"

definition ex_headers :: "string list" where
  "ex_headers = [''sample'', ''treatment'', ''geneA'', ''geneB'']"

definition ex_rows :: "cell list list" where
  "ex_rows =
     [[Str ''s1'', Str ''0'', Str ''2'', Str ''8''],
      [Str ''s2'', Str ''0'', Str ''2'', Str ''8''],
      [Str ''s3'', Str ''1'', Str ''8'', Str ''2''],
      [Str ''s4'', Str ''1'', Str ''8'', Str ''2'']]"

text \<open>
  The table after \<^verbatim>\<open>read_file\<close> with the control value \<^verbatim>\<open>0\<close>.
\<close>

definition ex_table :: Data where
  "ex_table =
     \<lparr>headers = ex_headers,
      non_data = [''sample'', ''treatment''],
      data =
        [[Str ''s1'', Str ''0'', Num 2, Num 8],
         [Str ''s2'', Str ''0'', Num 2, Num 8],
         [Str ''s3'', Str ''1'', Num 8, Num 2],
         [Str ''s4'', Str ''1'', Num 8, Num 2]],
      control_idx = [0, 1],
      cond_idx = [1],
      cond_groups = [''[0.0]'' \<mapsto> [0, 1], ''[1.0]'' \<mapsto> [2, 3]],
      cond_group_idx = [[Num 0], [Num 1]],
      control_cond_vals = Some [Num 0]\<rparr>"

text \<open>
  The same rows with a control value that no row has.
\<close>

definition ex_other :: Data where
  "ex_other = ex_table\<lparr>control_idx := [], control_cond_vals := Some [Num 2]\<rparr>"

text \<open>
  A table whose control group has a single row.
\<close>

definition ex_single :: Data where
  "ex_single =
     \<lparr>headers = ex_headers,
      non_data = [''sample'', ''treatment''],
      data =
        [[Str ''s1'', Str ''0'', Num 2, Num 8],
         [Str ''s3'', Str ''1'', Num 8, Num 2],
         [Str ''s4'', Str ''1'', Num 8, Num 2]],
      control_idx = [0],
      cond_idx = [1],
      cond_groups = [''[0.0]'' \<mapsto> [0], ''[1.0]'' \<mapsto> [1, 2]],
      cond_group_idx = [[Num 0], [Num 1]],
      control_cond_vals = Some [Num 0]\<rparr>"


section \<open>Properties\<close>

subsection \<open>Loops that may raise\<close>

lemma map_res_Inr_iff:
  "map_res f xs = Inr ys \<longleftrightarrow> list_all2 (\<lambda>x y. f x = Inr y) xs ys"
proof (induction xs arbitrary: ys)
  case Nil
  then show ?case by auto
next
  case (Cons x xs)
  show ?case
    by (cases ys) (auto simp: Cons.IH [symmetric] split: sum.splits)
qed

lemma map_res_length: "map_res f xs = Inr ys \<Longrightarrow> length ys = length xs"
  by (simp add: map_res_Inr_iff list_all2_lengthD)

lemma map_res_nth:
  "map_res f xs = Inr ys \<Longrightarrow> i < length xs \<Longrightarrow> f (xs ! i) = Inr (ys ! i)"
  by (auto simp: map_res_Inr_iff dest: list_all2_nthD)

lemma map_res_map:
  "(\<And>x. x \<in> set xs \<Longrightarrow> f x = Inr (g x)) \<Longrightarrow> map_res f xs = Inr (map g xs)"
  by (induction xs) auto

lemma map_res_Inr_map:
  "map_res f xs = Inr ys \<Longrightarrow> (\<And>x y. x \<in> set xs \<Longrightarrow> f x = Inr y \<Longrightarrow> y = g x) \<Longrightarrow> ys = map g xs"
proof (induction xs arbitrary: ys)
  case Nil
  then show ?case by simp
next
  case (Cons x xs)
  then show ?case by (auto split: sum.splits)
qed

lemma map_res_fails:
  "x \<in> set xs \<Longrightarrow> f x = Inl e \<Longrightarrow> \<exists>e'. map_res f xs = Inl e'"
  by (induction xs) (auto split: sum.splits)

lemma map_res_py_nth:
  "map_res (py_nth xs) is = Inr ys \<Longrightarrow> (\<forall>i\<in>set is. i < length xs) \<and> ys = map (nth xs) is"
proof (induction "is" arbitrary: ys)
  case Nil
  then show ?case by simp
next
  case (Cons i "is")
  then show ?case by (auto simp: py_nth_def split: sum.splits if_splits)
qed

lemma map_res_py_div:
  "map_res (\<lambda>x. py_div x a) xs = Inr ys \<Longrightarrow> xs \<noteq> [] \<Longrightarrow> a \<noteq> 0"
  by (cases xs) (auto simp: py_div_def split: sum.splits if_splits)

lemma map_res_py_div_map:
  "map_res (\<lambda>x. py_div x a) xs = Inr ys \<Longrightarrow> ys = map (\<lambda>x. x / a) xs"
  by (erule map_res_Inr_map) (auto simp: py_div_def split: if_splits)

subsection \<open>Statistics of a list of numbers\<close>

lemma two_mult_sum_le:
  "2 * x * sum_list xs \<le> real (length xs) * x\<^sup>2 + sum_list (map (\<lambda>y. y\<^sup>2) xs)"
proof (induction xs)
  case Nil
  then show ?case by simp
next
  case (Cons a xs)
  have "2 * x * a \<le> x\<^sup>2 + a\<^sup>2"
    using sum_squares_bound [of x a] by (simp add: algebra_simps)
  with Cons show ?case by (simp add: algebra_simps)
qed

lemma sum_list_squared_le:
  "(sum_list xs)\<^sup>2 \<le> real (length xs) * sum_list (map (\<lambda>y. y\<^sup>2) xs)"
proof (induction xs)
  case Nil
  then show ?case by simp
next
  case (Cons a xs)
  have "(a + sum_list xs)\<^sup>2 = a\<^sup>2 + 2 * a * sum_list xs + (sum_list xs)\<^sup>2"
    by (simp add: power2_sum)
  with Cons two_mult_sum_le [of a xs] show ?case by (simp add: algebra_simps)
qed

lemma radicand_nonneg:
  assumes "2 \<le> length xs"
  shows "0 \<le> (sum_list (map (\<lambda>y. y\<^sup>2) xs) - (sum_list xs)\<^sup>2 / real (length xs)) / (real (length xs) - 1)"
proof -
  have n: "0 < real (length xs)" using assms by auto
  have "(sum_list xs)\<^sup>2 / real (length xs) \<le> sum_list (map (\<lambda>y. y\<^sup>2) xs)"
    using sum_list_squared_le [of xs] n by (simp add: divide_le_eq mult.commute)
  moreover have "0 < real (length xs) - 1" using assms by simp
  ultimately show ?thesis by simp
qed

lemma compute_stats_short: "length numbers < 2 \<Longrightarrow> compute_stats numbers = Inl ZeroDivisionError"
proof -
  assume "length numbers < 2"
  then consider "length numbers = 0" | "length numbers = 1" by linarith
  then show ?thesis by cases (simp_all add: compute_stats_def Let_def)
qed

lemma sum_centered_squares:
  "sum_list (map (\<lambda>x. (x - m)\<^sup>2) xs) =
     sum_list (map (\<lambda>x. x\<^sup>2) xs) - 2 * m * sum_list xs + real (length xs) * m\<^sup>2"
  by (induction xs) (simp_all add: power2_diff algebra_simps)

lemma centered_eq_raw:
  assumes "xs \<noteq> []"
  shows "sum_list (map (\<lambda>x. (x - mean xs)\<^sup>2) xs) =
           sum_list (map (\<lambda>x. x\<^sup>2) xs) - (sum_list xs)\<^sup>2 / real (length xs)"
proof -
  have n: "real (length xs) \<noteq> 0" using assms by simp
  show ?thesis
    unfolding sum_centered_squares mean_def using n
    by (simp add: power2_eq_square field_simps)
qed

lemma compute_stats_Inr:
  assumes "compute_stats xs = Inr (a, sd, se)"
  shows "2 \<le> length xs \<and> a = mean xs \<and> sd = sample_stddev xs
         \<and> se = sd / sqrt (real (length xs))"
proof -
  have len: "2 \<le> length xs"
    using assms compute_stats_short [of xs] by (cases "length xs < 2") auto
  then have "xs \<noteq> []" by auto
  from centered_eq_raw [OF this] assms len show ?thesis
    by (auto simp: compute_stats_def Let_def mean_def sample_stddev_def split: if_splits)
qed


subsection \<open>Normalization factors\<close>

lemma reduce_mul_Inr:
  "reduce_mul cs acc = Inr p \<Longrightarrow> \<exists>vs. cs = map Num vs \<and> p = acc * prod_list vs"
proof (induction cs acc rule: reduce_mul.induct)
  case (1 acc)
  then show ?case by simp
next
  case (2 y cs acc)
  then obtain vs where "cs = map Num vs" "p = acc * y * prod_list vs" by auto
  then have "Num y # cs = map Num (y # vs) \<and> p = acc * prod_list (y # vs)" by simp
  then show ?case by (rule exI [of _ "y # vs"])
next
  case (3 s cs acc)
  then show ?case by simp
qed

lemma reduce_mul_Num: "reduce_mul (map Num vs) acc = Inr (acc * prod_list vs)"
  by (induction vs arbitrary: acc) (simp_all add: mult.assoc)

lemma py_pow_root:
  assumes "0 < n" "py_pow x (1 / real n) = Inr r"
  shows "r = root n x"
proof (cases "n = 1")
  case True
  with assms show ?thesis by (auto simp: py_pow_def split: if_splits)
next
  case False
  with assms have n: "1 < real n" by simp
  then have fl: "\<lfloor>1 / real n\<rfloor> = 0" by (simp add: floor_eq_iff)
  with n have "1 / real n \<noteq> of_int \<lfloor>1 / real n\<rfloor>" by simp
  with assms n show ?thesis
    by (auto simp: py_pow_def root_powr_inverse split: if_splits)
qed

lemma map_res_inverse:
  "map_res (\<lambda>x. py_div 1 x) nfs =
     (if 0 \<in> set nfs then Inl ZeroDivisionError else Inr (map (\<lambda>x. 1 / x) nfs))"
  by (induction nfs) (auto simp: py_div_def)

lemma sum_list_div: "sum_list (map (\<lambda>x. x / a) xs) = sum_list xs / (a::real)"
  by (induction xs) (simp_all add: add_divide_distrib)

lemma length_compress:
  assumes "length hs \<le> length row"
  shows "length (compress row (map P hs)) = length (filter P hs)"
proof -
  have "length (compress row (map P hs)) = length (filter (\<lambda>b. b) (map snd (zip row (map P hs))))"
    by (simp add: compress_def filter_map comp_def)
  also have "map snd (zip row (map P hs)) = map P hs"
    using assms by (simp add: map_snd_zip_take)
  also have "length (filter (\<lambda>b. b) (map P hs)) = length (filter P hs)"
    by (simp add: filter_map comp_def)
  finally show ?thesis .
qed

lemma length_selected:
  assumes "distinct gs" "set gs \<subseteq> set hs" "distinct hs"
  shows "length (filter (\<lambda>h. h \<in> set gs) hs) = length gs"
proof -
  have "length (filter (\<lambda>h. h \<in> set gs) hs) = card ({h. h \<in> set gs} \<inter> set hs)"
    using assms(3) by (rule distinct_length_filter)
  also have "{h. h \<in> set gs} \<inter> set hs = set gs" using assms(2) by auto
  also have "card (set gs) = length gs" using assms(1) by (rule distinct_card)
  finally show ?thesis .
qed

lemma compute_nf_row:
  assumes "compute_nf d gs = Inr nfs" "i < length (data d)"
  shows "0 < length gs
       \<and> (\<exists>vs. compress (data d ! i) (col_sel d gs) = map Num vs
              \<and> nfs ! i = root (length gs) (prod_list vs))"
proof -
  let ?cs = "compress (data d ! i) (col_sel d gs)"
  have "(case reduce_mul ?cs 1 of Inl e \<Rightarrow> Inl e
         | Inr p \<Rightarrow> if length gs = 0 then Inl ZeroDivisionError
                    else py_pow p (1 / real (length gs))) = Inr (nfs ! i)"
    using map_res_nth [OF assms(1) [unfolded compute_nf_def] assms(2)] .
  then obtain p where p: "reduce_mul ?cs 1 = Inr p" and n: "0 < length gs"
    and r: "py_pow p (1 / real (length gs)) = Inr (nfs ! i)"
    by (auto split: sum.splits if_splits)
  from reduce_mul_Inr [OF p] obtain vs where vs: "?cs = map Num vs" "p = prod_list vs"
    by auto
  from py_pow_root [OF n r] vs n show ?thesis by auto
qed

text \<open>
  Claim C2. When \<^verbatim>\<open>compute_nf\<close> returns, it returns one value per row of the table, in row
  order; the value of a row is the product of the row's measurements in the columns whose
  header is in the subset, raised to the power \<open>1 / n\<close> (its \<open>n\<close>-th root) with \<open>n\<close> the size of
  the subset, and it is the geometric mean of these measurements when the subset names
  distinct columns of a table with distinct headers. \<^verbatim>\<open>compute_inv_nf\<close> then returns the
  reciprocal of each value, and raises \<^verbatim>\<open>ZeroDivisionError\<close> when one of them is zero.
\<close>

theorem compute_nf_geometric_mean:
  assumes "compute_nf d gs = Inr nfs"
  shows "length nfs = length (data d)
       \<and> (\<forall>i<length (data d). \<exists>vs.
             compress (data d ! i) (col_sel d gs) = map Num vs
           \<and> nfs ! i = root (length gs) (prod_list vs)
           \<and> (0 \<le> prod_list vs \<longrightarrow> nfs ! i = prod_list vs powr (1 / real (length gs)))
           \<and> (distinct gs \<and> set gs \<subseteq> set (headers d) \<and> distinct (headers d)
                \<and> length (headers d) \<le> length (data d ! i)
              \<longrightarrow> nfs ! i = geometric_mean vs))
       \<and> compute_inv_nf d gs =
           (if 0 \<in> set nfs then Inl ZeroDivisionError else Inr (map (\<lambda>x. 1 / x) nfs))"
proof (intro conjI allI impI)
  show "length nfs = length (data d)"
    using assms by (simp add: compute_nf_def map_res_length)
next
  fix i assume i: "i < length (data d)"
  from compute_nf_row [OF assms i] obtain vs
    where n: "0 < length gs"
      and vs: "compress (data d ! i) (col_sel d gs) = map Num vs"
      and r: "nfs ! i = root (length gs) (prod_list vs)" by blast
  have p: "nfs ! i = prod_list vs powr (1 / real (length gs))" if "0 \<le> prod_list vs"
    using r n that by (simp add: root_powr_inverse)
  have "nfs ! i = geometric_mean vs"
    if h: "distinct gs \<and> set gs \<subseteq> set (headers d) \<and> distinct (headers d)
           \<and> length (headers d) \<le> length (data d ! i)"
  proof -
    have "length vs = length (compress (data d ! i) (col_sel d gs))"
      by (simp add: vs)
    also have "\<dots> = length (filter (\<lambda>h. h \<in> set gs) (headers d))"
      using h by (simp add: col_sel_def length_compress)
    also have "\<dots> = length gs" using h by (simp add: length_selected)
    finally show ?thesis using r by (simp add: geometric_mean_def)
  qed
  with vs r p show "\<exists>vs. compress (data d ! i) (col_sel d gs) = map Num vs
           \<and> nfs ! i = root (length gs) (prod_list vs)
           \<and> (0 \<le> prod_list vs \<longrightarrow> nfs ! i = prod_list vs powr (1 / real (length gs)))
           \<and> (distinct gs \<and> set gs \<subseteq> set (headers d) \<and> distinct (headers d)
                \<and> length (headers d) \<le> length (data d ! i)
              \<longrightarrow> nfs ! i = geometric_mean vs)" by blast
next
  show "compute_inv_nf d gs =
           (if 0 \<in> set nfs then Inl ZeroDivisionError else Inr (map (\<lambda>x. 1 / x) nfs))"
    using assms by (simp add: compute_inv_nf_def map_res_inverse)
qed

text \<open>
  Claim C3. When \<^verbatim>\<open>compute_inv_nf_vs_control\<close> returns and the control group is not empty, the
  arithmetic mean of its output over the control rows is exactly 1; with a single control
  row, the output at that row is exactly 1.
\<close>

theorem control_mean_is_one:
  assumes "compute_inv_nf_vs_control d gs = Inr out" and "control_rows d \<noteq> []"
  shows "(\<forall>i\<in>set (control_rows d). i < length out)
       \<and> sum_list (map (nth out) (control_rows d)) / real (length (control_rows d)) = 1
       \<and> (\<forall>i. control_rows d = [i] \<longrightarrow> out ! i = 1)"
proof -
  let ?c = "control_rows d"
  from assms obtain inv_nfs sel
    where sel: "map_res (py_nth inv_nfs) ?c = Inr sel"
      and out: "map_res (\<lambda>x. py_div x (sum_list sel / real (length ?c))) inv_nfs = Inr out"
    by (auto simp: compute_inv_nf_vs_control_def Let_def split: sum.splits if_splits)
  define a where "a = sum_list sel / real (length ?c)"
  from map_res_py_nth [OF sel]
  have valid: "\<forall>i\<in>set ?c. i < length inv_nfs" and sel_eq: "sel = map (nth inv_nfs) ?c"
    by auto
  from assms(2) valid have "inv_nfs \<noteq> []" by (cases ?c) auto
  with out have a0: "a \<noteq> 0" unfolding a_def by (rule map_res_py_div)
  have out_eq: "out = map (\<lambda>x. x / a) inv_nfs"
    using out unfolding a_def by (rule map_res_py_div_map)
  have len: "length out = length inv_nfs" by (simp add: out_eq)
  have "map (nth out) ?c = map (\<lambda>x. x / a) sel"
    using valid by (simp add: out_eq sel_eq)
  then have "sum_list (map (nth out) ?c) = sum_list sel / a"
    by (simp add: sum_list_div)
  also have "\<dots> = real (length ?c)"
    using a0 assms(2) by (simp add: a_def)
  finally have s: "sum_list (map (nth out) ?c) = real (length ?c)" .
  then have m: "sum_list (map (nth out) ?c) / real (length ?c) = 1"
    using assms(2) by simp
  have single: "\<forall>i. ?c = [i] \<longrightarrow> out ! i = 1"
    using m by auto
  have v: "\<forall>i\<in>set ?c. i < length out"
    using valid len by simp
  from v m single show ?thesis by blast
qed

text \<open>
  Claim C10. Names of the subset that are not headers do not change the selected columns,
  and still count in the exponent \<open>1 / len(genes)\<close>. For a subset without any header the product
  is empty and \<^verbatim>\<open>compute_nf\<close> returns 1.0 for every row; only the subset without any name at
  all raises, on a table with rows, from the division by its length. In general, when
  \<^verbatim>\<open>compute_nf\<close> returns for a subset that mixes headers and other names, the value of a row
  is the product of the row's cells in the columns of the names that are headers, and the
  root taken of it has the order of the whole subset, the other names included.
\<close>

theorem compute_nf_unknown_genes:
  "col_sel d gs = col_sel d (filter (\<lambda>g. g \<in> set (headers d)) gs)
   \<and> (set gs \<inter> set (headers d) = {} \<longrightarrow>
        compute_nf d gs =
          (if gs = [] \<and> data d \<noteq> [] then Inl ZeroDivisionError
           else Inr (replicate (length (data d)) 1)))
   \<and> (compute_nf d gs = Inr nfs \<longrightarrow>
        length nfs = length (data d)
        \<and> (\<forall>i < length (data d). \<exists>vs.
              compress (data d ! i) (col_sel d (filter (\<lambda>g. g \<in> set (headers d)) gs)) = map Num vs
              \<and> nfs ! i = root (length gs) (prod_list vs)
              \<and> (0 \<le> prod_list vs \<longrightarrow> nfs ! i = prod_list vs powr (1 / real (length gs)))))"
proof (intro conjI impI allI)
  show known: "col_sel d gs = col_sel d (filter (\<lambda>g. g \<in> set (headers d)) gs)"
    by (auto simp: col_sel_def)
  {
    assume r: "compute_nf d gs = Inr nfs"
    then show "length nfs = length (data d)"
      by (simp add: compute_nf_def map_res_length)
    fix i
    assume i: "i < length (data d)"
    from compute_nf_row [OF r i] obtain vs
      where n: "0 < length gs"
        and vs: "compress (data d ! i) (col_sel d gs) = map Num vs"
        and v: "nfs ! i = root (length gs) (prod_list vs)" by blast
    have p: "nfs ! i = prod_list vs powr (1 / real (length gs))" if "0 \<le> prod_list vs"
      using v n that by (simp add: root_powr_inverse)
    from vs known
    have "compress (data d ! i) (col_sel d (filter (\<lambda>g. g \<in> set (headers d)) gs)) = map Num vs"
      by simp
    with v p
    show "\<exists>vs. compress (data d ! i) (col_sel d (filter (\<lambda>g. g \<in> set (headers d)) gs)) = map Num vs
              \<and> nfs ! i = root (length gs) (prod_list vs)
              \<and> (0 \<le> prod_list vs \<longrightarrow> nfs ! i = prod_list vs powr (1 / real (length gs)))"
      by blast
  }
next
  assume disj: "set gs \<inter> set (headers d) = {}"
  have sel: "compress row (col_sel d gs) = []" for row :: "cell list"
  proof -
    have "\<not> snd x" if "x \<in> set (zip row (col_sel d gs))" for x
    proof -
      obtain a b where "x = (a, b)" by (cases x)
      with that have "snd x \<in> set (col_sel d gs)"
        by (auto dest: set_zip_rightD)
      then show ?thesis using disj by (auto simp: col_sel_def)
    qed
    then show ?thesis by (simp add: compress_def filter_empty_conv)
  qed
  show "compute_nf d gs =
          (if gs = [] \<and> data d \<noteq> [] then Inl ZeroDivisionError
           else Inr (replicate (length (data d)) 1))"
  proof (cases "gs = []")
    case True
    have "compress row (col_sel d []) = []" for row :: "cell list"
      using sel [of row] True by simp
    with True show ?thesis
      by (cases "data d") (simp_all add: compute_nf_def)
  next
    case False
    then have "map_res (\<lambda>row. case reduce_mul (compress row (col_sel d gs)) 1 of
                 Inl e \<Rightarrow> Inl e
               | Inr p \<Rightarrow> if length gs = 0 then Inl ZeroDivisionError
                          else py_pow p (1 / real (length gs))) (data d)
             = Inr (map (\<lambda>row. 1) (data d))"
      by (intro map_res_map) (simp add: sel py_pow_def)
    with False show ?thesis by (simp add: compute_nf_def map_replicate_const)
  qed
qed

subsection \<open>Statistics of the condition groups\<close>

lemma compute_condition_stats_Inr:
  assumes "compute_condition_stats str d gs = Inr stats"
  shows "\<exists>out. compute_inv_nf_vs_control d gs = Inr out
          \<and> length stats = nr_conditions d
          \<and> (\<forall>j<nr_conditions d. \<exists>g.
                condition_group str d (condition_values d ! j) = Inr g
              \<and> (\<forall>i\<in>set g. i < length out)
              \<and> cond (stats ! j) = condition_values d ! j
              \<and> avg (stats ! j) = mean (map (nth out) g)
              \<and> stddev (stats ! j) = sample_stddev (map (nth out) g)
              \<and> stderr (stats ! j) = stddev (stats ! j) / sqrt (real (length g))
              \<and> cv_intra (stats ! j) = stddev (stats ! j) / avg (stats ! j))"
proof -
  from assms obtain out where out: "compute_inv_nf_vs_control d gs = Inr out"
    and m: "map_res (\<lambda>cond_values.
             case condition_group str d cond_values of
               Inl e \<Rightarrow> Inl e
             | Inr g \<Rightarrow>
                 (case map_res (py_nth out) g of
                    Inl e \<Rightarrow> Inl e
                  | Inr numbers \<Rightarrow>
                      (case compute_stats numbers of
                         Inl e \<Rightarrow> Inl e
                       | Inr (a, sd, se) \<Rightarrow>
                           (case py_div sd a of
                              Inl e \<Rightarrow> Inl e
                            | Inr cv \<Rightarrow>
                                Inr \<lparr>cond = cond_values, avg = a, stddev = sd,
                                     stderr = se, cv_intra = cv\<rparr>))))
            (condition_values d) = Inr stats"
    by (auto simp: compute_condition_stats_def split: sum.splits)
  have len: "length stats = nr_conditions d"
    using map_res_length [OF m] by (simp add: nr_conditions_def condition_values_def)
  have "\<exists>g. condition_group str d (condition_values d ! j) = Inr g
              \<and> (\<forall>i\<in>set g. i < length out)
              \<and> cond (stats ! j) = condition_values d ! j
              \<and> avg (stats ! j) = mean (map (nth out) g)
              \<and> stddev (stats ! j) = sample_stddev (map (nth out) g)
              \<and> stderr (stats ! j) = stddev (stats ! j) / sqrt (real (length g))
              \<and> cv_intra (stats ! j) = stddev (stats ! j) / avg (stats ! j)"
    if j: "j < nr_conditions d" for j
  proof -
    from j have "j < length (condition_values d)"
      by (simp add: nr_conditions_def condition_values_def)
    from map_res_nth [OF m this]
    obtain g numbers a sd se cv
      where g: "condition_group str d (condition_values d ! j) = Inr g"
        and nb: "map_res (py_nth out) g = Inr numbers"
        and cs: "compute_stats numbers = Inr (a, sd, se)"
        and dv: "py_div sd a = Inr cv"
        and st: "stats ! j = \<lparr>cond = condition_values d ! j, avg = a, stddev = sd,
                               stderr = se, cv_intra = cv\<rparr>"
      by (auto split: sum.splits prod.splits)
    from map_res_py_nth [OF nb]
    have v: "\<forall>i\<in>set g. i < length out" and numbers: "numbers = map (nth out) g" by auto
    from dv have cv: "cv = sd / a" by (auto simp: py_div_def split: if_splits)
    from compute_stats_Inr [OF cs] g v st cv show ?thesis
      by (simp add: numbers)
  qed
  with out len show ?thesis by blast
qed

text \<open>
  Claim C5. When \<^verbatim>\<open>compute_overall_stats\<close> returns, the record holds the arithmetic mean of
  the means of the condition groups, their sample standard deviation, the sum of
  \<open>\<bar>1 - mean\<bar>\<close> over the groups, and the standard deviation divided by the mean; the mean of
  a group is the mean of the control-normalized values at the rows of the group.
\<close>

theorem compute_overall_stats_values:
  assumes "compute_overall_stats str d gs = Inr os"
  shows "\<exists>stats out.
           compute_condition_stats str d gs = Inr stats
         \<and> compute_inv_nf_vs_control d gs = Inr out
         \<and> length stats = nr_conditions d
         \<and> (\<forall>j<nr_conditions d. \<exists>g.
               condition_group str d (condition_values d ! j) = Inr g
             \<and> avg (stats ! j) = mean (map (nth out) g))
         \<and> overall_avg os = mean (map avg stats)
         \<and> overall_stddev os = sample_stddev (map avg stats)
         \<and> cumm os = sum_list (map (\<lambda>x. \<bar>1 - x\<bar>) (map avg stats))
         \<and> cv_inter os = overall_stddev os / overall_avg os"
proof -
  from assms obtain stats a sd se cv
    where stats: "compute_condition_stats str d gs = Inr stats"
      and cs: "compute_stats (map avg stats) = Inr (a, sd, se)"
      and dv: "py_div sd a = Inr cv"
      and os: "os = \<lparr>overall_avg = a, overall_stddev = sd,
                     cumm = sum_list (map (\<lambda>x. \<bar>1 - x\<bar>) (map avg stats)), cv_inter = cv\<rparr>"
    by (auto simp: compute_overall_stats_def Let_def split: sum.splits prod.splits)
  from dv have cv: "cv = sd / a" by (auto simp: py_div_def split: if_splits)
  from compute_condition_stats_Inr [OF stats] obtain out
    where out: "compute_inv_nf_vs_control d gs = Inr out"
      and len: "length stats = nr_conditions d"
      and grp: "\<forall>j<nr_conditions d. \<exists>g.
               condition_group str d (condition_values d ! j) = Inr g
             \<and> avg (stats ! j) = mean (map (nth out) g)"
    by blast
  from compute_stats_Inr [OF cs] have
    "overall_avg os = mean (map avg stats)"
    "overall_stddev os = sample_stddev (map avg stats)"
    "cumm os = sum_list (map (\<lambda>x. \<bar>1 - x\<bar>) (map avg stats))"
    "cv_inter os = overall_stddev os / overall_avg os"
    by (simp_all add: os cv)
  with stats out len grp show ?thesis by blast
qed

lemma group_of_one_fails:
  assumes "cv \<in> set (condition_values d)" "cond_groups d (str cv) = Some g" "length g < 2"
  shows "\<exists>e. compute_condition_stats str d gs = Inl e"
proof (cases "compute_inv_nf_vs_control d gs")
  case (Inl e)
  then show ?thesis by (simp add: compute_condition_stats_def)
next
  case (Inr out)
  let ?f = "\<lambda>cond_values.
             case condition_group str d cond_values of
               Inl e \<Rightarrow> Inl e
             | Inr g \<Rightarrow>
                 (case map_res (py_nth out) g of
                    Inl e \<Rightarrow> Inl e
                  | Inr numbers \<Rightarrow>
                      (case compute_stats numbers of
                         Inl e \<Rightarrow> Inl e
                       | Inr (a, sd, se) \<Rightarrow>
                           (case py_div sd a of
                              Inl e \<Rightarrow> Inl e
                            | Inr cv \<Rightarrow>
                                Inr \<lparr>cond = cond_values, avg = a, stddev = sd,
                                     stderr = se, cv_intra = cv\<rparr>)))"
  have "\<exists>e. ?f cv = Inl e"
  proof (cases "map_res (py_nth out) g")
    case (Inl e)
    with assms(2) show ?thesis by (simp add: condition_group_def)
  next
    case (Inr numbers)
    then have "length numbers < 2" using assms(3) by (simp add: map_res_length)
    then have "compute_stats numbers = Inl ZeroDivisionError" by (rule compute_stats_short)
    with Inr assms(2) show ?thesis by (simp add: condition_group_def)
  qed
  then obtain e where "?f cv = Inl e" ..
  from map_res_fails [of cv "condition_values d" ?f, OF assms(1) this]
  show ?thesis using Inr by (simp add: compute_condition_stats_def)
qed

text \<open>
  Claim C7, as the code has it. There is no \<^verbatim>\<open>DegenerateSample\<close> error in the code: with fewer
  than two numbers \<^verbatim>\<open>compute_stats\<close> raises an exception of Python and returns nothing, and
  when a condition group has fewer than two rows \<^verbatim>\<open>compute_condition_stats\<close> raises and
  returns no statistics. The exception of \<^verbatim>\<open>compute_stats\<close> is \<^verbatim>\<open>ZeroDivisionError\<close>, from
  the division by \<open>n\<close> or by \<open>n - 1.0\<close>, when the squares taken before that division are in
  the range of a float (below \<open>2 ^ 1023\<close>); the statement does not say which exception it is
  when a square is out of that range.
\<close>

theorem degenerate_sample_raises:
  "(length numbers < 2 \<longrightarrow> (\<exists>e. compute_stats numbers = Inl e))
   \<and> (length numbers < 2 \<and> (\<forall>x \<in> set numbers. x\<^sup>2 < 2 ^ 1023)
        \<longrightarrow> compute_stats numbers = Inl ZeroDivisionError)
   \<and> (cv \<in> set (condition_values d) \<and> cond_groups d (str cv) = Some g \<and> length g < 2
        \<longrightarrow> (\<exists>e. compute_condition_stats str d gs = Inl e))"
  using compute_stats_short [of numbers] group_of_one_fails [of cv d str g gs] by blast

subsection \<open>The ranking of all gene combinations\<close>











subsection \<open>Loading the table\<close>



lemma first_seen_snoc:
  "first_seen (xs @ [t]) = (if t \<in> set xs then first_seen xs else first_seen xs @ [t])"
  by (induction xs) auto

lemma filter_upt_snoc:
  "filter (\<lambda>i. P ((ts @ [t]) ! i)) [0 ..< length (ts @ [t])] =
     filter (\<lambda>i. P (ts ! i)) [0 ..< length ts] @ (if P t then [length ts] else [])"
proof -
  have "filter (\<lambda>i. P ((ts @ [t]) ! i)) [0 ..< length ts] =
        filter (\<lambda>i. P (ts ! i)) [0 ..< length ts]"
    by (rule filter_cong) (auto simp: nth_append)
  then show ?thesis by simp
qed

lemma groups_inv_init: "groups_inv str (configure hs sample conditions vals) []"
  by (simp add: groups_inv_def configure_def set_control_vals_def
      set_condition_col_names_def set_sample_col_name_def Data_init_def)

lemma add_step:
  assumes "add fl str d row0 = Inr d'" and "groups_inv str d ts"
  shows "\<exists>t. row_cond_values fl d row0 = Inr t \<and> groups_inv str d' (ts @ [t])
           \<and> headers d' = headers d \<and> non_data d' = non_data d
           \<and> cond_idx d' = cond_idx d \<and> control_cond_vals d' = control_cond_vals d"
proof -
  from assms(1) obtain row t control
    where row: "coerce_loop fl (non_data d) (enumerate 0 (headers d)) row0 = Inr row"
      and t: "cond_values_of fl (cond_idx d) row = Inr t"
      and ctl: "control_cond_vals d = Some control"
      and d': "d' = d\<lparr>control_idx :=
                        (if control = t then control_idx d @ [length (data d)]
                         else control_idx d),
                      cond_group_idx :=
                        (if cond_groups d (str t) = None
                         then cond_group_idx d @ [t]
                         else cond_group_idx d),
                      cond_groups :=
                        (cond_groups d)(str t \<mapsto>
                           (case cond_groups d (str t) of
                              None \<Rightarrow> [] | Some g \<Rightarrow> g) @ [length (data d)]),
                      data := data d @ [row]\<rparr>"
    by (auto simp: add_def Let_def split: sum.splits option.splits)
  from assms(2) have len: "length (data d) = length ts"
    and ci: "control_idx d = filter (\<lambda>i. Some (ts ! i) = control_cond_vals d) [0 ..< length ts]"
    and cg: "cond_groups d =
       (\<lambda>l. if l \<in> str ` set ts
            then Some (filter (\<lambda>i. str (ts ! i) = l) [0 ..< length ts]) else None)"
    and cgi: "inj_on str (set ts) \<longrightarrow> cond_group_idx d = first_seen ts"
    by (simp_all add: groups_inv_def)
  have 1: "length (data d') = length (ts @ [t])" by (simp add: d' len)
  have 2: "control_idx d' =
        filter (\<lambda>i. Some ((ts @ [t]) ! i) = control_cond_vals d') [0 ..< length (ts @ [t])]"
    unfolding filter_upt_snoc [of "\<lambda>x. Some x = control_cond_vals d'"]
    by (auto simp: d' ci ctl len)
  have 3: "cond_groups d' =
       (\<lambda>l. if l \<in> str ` set (ts @ [t])
            then Some (filter (\<lambda>i. str ((ts @ [t]) ! i) = l) [0 ..< length (ts @ [t])])
            else None)"
  proof (rule ext)
    fix l
    have e: "filter (\<lambda>i. str (ts ! i) = str t) [0 ..< length ts] = []"
      if "str t \<notin> str ` set ts"
    proof -
      have "str (ts ! i) \<noteq> str t" if "i < length ts" for i
        using \<open>str t \<notin> str ` set ts\<close> that nth_mem [of i ts] by (metis imageI)
      then show ?thesis by (auto simp: filter_empty_conv)
    qed
    show "cond_groups d' l =
       (if l \<in> str ` set (ts @ [t])
            then Some (filter (\<lambda>i. str ((ts @ [t]) ! i) = l) [0 ..< length (ts @ [t])])
            else None)"
      unfolding filter_upt_snoc [of "\<lambda>x. str x = l"]
      by (auto simp: d' cg len e)
  qed
  have 4: "cond_group_idx d' = first_seen (ts @ [t])" if inj: "inj_on str (set (ts @ [t]))"
  proof -
    from inj have "inj_on str (set ts)" by (auto simp: inj_on_def)
    with cgi have old: "cond_group_idx d = first_seen ts" by simp
    have "cond_groups d (str t) = None \<longleftrightarrow> t \<notin> set ts"
      using inj by (auto simp: cg inj_on_def)
    then show ?thesis by (simp add: d' old first_seen_snoc)
  qed
  have "row_cond_values fl d row0 = Inr t"
    by (simp add: row_cond_values_def row t)
  moreover have "groups_inv str d' (ts @ [t])"
    unfolding groups_inv_def using 1 2 3 4 by blast
  ultimately show ?thesis by (auto simp: d')
qed

lemma row_cond_values_cong:
  "headers d' = headers d \<Longrightarrow> non_data d' = non_data d \<Longrightarrow> cond_idx d' = cond_idx d
     \<Longrightarrow> row_cond_values fl d' = row_cond_values fl d"
  by (rule ext) (simp add: row_cond_values_def split: sum.splits)

lemma add_rows_inv:
  assumes "add_rows fl str d rows = Inr d'" and "groups_inv str d ts"
  shows "\<exists>ts'. map_res (row_cond_values fl d) rows = Inr ts' \<and> groups_inv str d' (ts @ ts')
           \<and> headers d' = headers d \<and> non_data d' = non_data d
           \<and> cond_idx d' = cond_idx d \<and> control_cond_vals d' = control_cond_vals d"
  using assms
proof (induction rows arbitrary: d ts)
  case Nil
  then show ?case by simp
next
  case (Cons row rows)
  from Cons.prems(1) obtain d1 where a: "add fl str d row = Inr d1"
    and r: "add_rows fl str d1 rows = Inr d'"
    by (auto split: sum.splits)
  from add_step [OF a Cons.prems(2)] obtain t
    where t: "row_cond_values fl d row = Inr t" and inv1: "groups_inv str d1 (ts @ [t])"
      and same: "headers d1 = headers d" "non_data d1 = non_data d"
        "cond_idx d1 = cond_idx d" "control_cond_vals d1 = control_cond_vals d"
    by blast
  from Cons.IH [OF r inv1] obtain ts'
    where ts': "map_res (row_cond_values fl d1) rows = Inr ts'"
      and inv': "groups_inv str d' ((ts @ [t]) @ ts')"
      and same': "headers d' = headers d1" "non_data d' = non_data d1"
        "cond_idx d' = cond_idx d1" "control_cond_vals d' = control_cond_vals d1"
    by blast
  have "row_cond_values fl d1 = row_cond_values fl d"
    using same by (intro row_cond_values_cong)
  with ts' t have "map_res (row_cond_values fl d) (row # rows) = Inr (t # ts')"
    by simp
  moreover from inv' have "groups_inv str d' (ts @ t # ts')" by simp
  ultimately show ?case using same same' by auto
qed

lemma loaded_table:
  assumes "add_rows fl str (configure hs sample conditions vals) rows = Inr d"
  shows "\<exists>ts. map_res (row_cond_values fl (configure hs sample conditions vals)) rows = Inr ts
          \<and> groups_inv str d ts \<and> control_cond_vals d = Some vals"
proof -
  from add_rows_inv [OF assms groups_inv_init] obtain ts
    where "map_res (row_cond_values fl (configure hs sample conditions vals)) rows = Inr ts"
      and "groups_inv str d ([] @ ts)"
      and "control_cond_vals d = control_cond_vals (configure hs sample conditions vals)"
    by blast
  then show ?thesis
    by (auto simp: configure_def set_control_vals_def)
qed



text \<open>
  Claim C6, as the code has it. There is no \<^verbatim>\<open>EmptyControlGroup\<close> error in the code: with an
  empty control group \<^verbatim>\<open>compute_inv_nf_vs_control\<close> raises the error of \<^verbatim>\<open>compute_inv_nf\<close> if
  there is one, and \<^verbatim>\<open>ZeroDivisionError\<close> otherwise. The control group of a loaded table is
  empty when no row has the control values.
\<close>

theorem empty_control_group_raises:
  "(control_rows d = [] \<longrightarrow>
      compute_inv_nf_vs_control d gs =
        (case compute_inv_nf d gs of Inl e \<Rightarrow> Inl e | Inr inv_nfs \<Rightarrow> Inl ZeroDivisionError))
   \<and> (add_rows fl str (configure hs sample conditions vals) rows = Inr d
      \<and> (\<forall>row\<in>set rows. row_cond_values fl (configure hs sample conditions vals) row \<noteq> Inr vals)
      \<longrightarrow> control_rows d = [])"
proof (intro conjI impI)
  assume "control_rows d = []"
  then show "compute_inv_nf_vs_control d gs =
        (case compute_inv_nf d gs of Inl e \<Rightarrow> Inl e | Inr inv_nfs \<Rightarrow> Inl ZeroDivisionError)"
    by (simp add: compute_inv_nf_vs_control_def split: sum.splits)
next
  assume h: "add_rows fl str (configure hs sample conditions vals) rows = Inr d
      \<and> (\<forall>row\<in>set rows. row_cond_values fl (configure hs sample conditions vals) row \<noteq> Inr vals)"
  then obtain ts
    where ts: "map_res (row_cond_values fl (configure hs sample conditions vals)) rows = Inr ts"
      and inv: "groups_inv str d ts" and c: "control_cond_vals d = Some vals"
    using loaded_table by blast
  have "ts ! i \<noteq> vals" if "i < length ts" for i
  proof -
    from that map_res_length [OF ts] have i: "i < length rows" by simp
    from map_res_nth [OF ts i] h i show ?thesis by auto
  qed
  then show "control_rows d = []"
    using inv by (auto simp: groups_inv_def control_rows_def c filter_empty_conv)
qed

section \<open>The example\<close>

subsection \<open>Evaluating the example\<close>

lemma ex_configure:
  "configure ex_headers ''sample'' [''treatment''] vals =
     \<lparr>headers = ex_headers, non_data = [''sample'', ''treatment''], data = [],
      control_idx = [], cond_idx = [1], cond_groups = Map.empty, cond_group_idx = [],
      control_cond_vals = Some vals\<rparr>"
  by (simp add: configure_def set_control_vals_def set_condition_col_names_def
      set_sample_col_name_def Data_init_def ex_headers_def enumerate_eq_zip upt_rec)

lemma ex_add:
  "headers d = ex_headers \<Longrightarrow> non_data d = [''sample'', ''treatment''] \<Longrightarrow> cond_idx d = [1] \<Longrightarrow>
   control_cond_vals d = Some ctl \<Longrightarrow> ex_float t = Some tv \<Longrightarrow> ex_float a = Some av \<Longrightarrow>
   ex_float b = Some bv \<Longrightarrow>
   add ex_float str d [Str s, Str t, Str a, Str b] =
     Inr (d\<lparr>control_idx := (if ctl = [Num tv] then control_idx d @ [length (data d)]
                             else control_idx d),
            cond_group_idx := (if cond_groups d (str [Num tv]) = None
                               then cond_group_idx d @ [[Num tv]] else cond_group_idx d),
            cond_groups := (cond_groups d)(str [Num tv] \<mapsto>
                 (case cond_groups d (str [Num tv]) of None \<Rightarrow> [] | Some g \<Rightarrow> g)
                   @ [length (data d)]),
            data := data d @ [[Str s, Str t, Num av, Num bv]]\<rparr>)"
  by (simp add: add_def ex_headers_def enumerate_eq_zip upt_rec cond_values_of_def Let_def)

lemma ex_float_simps:
  "ex_float ''0'' = Some 0" "ex_float ''1'' = Some 1" "ex_float ''2'' = Some 2"
  "ex_float ''8'' = Some 8"
  by (simp_all add: ex_float_def)


lemma ex_load_other:
  "add_rows ex_float ex_str (configure ex_headers ''sample'' [''treatment''] [Num 2]) ex_rows
     = Inr ex_other"
  by (simp add: ex_configure ex_rows_def ex_add ex_float_simps ex_str_def ex_table_def
      ex_other_def numeral_2_eq_2 numeral_3_eq_3)

lemma ex_row_cond_values:
  "ex_float t = Some tv \<Longrightarrow> ex_float a = Some av \<Longrightarrow> ex_float b = Some bv \<Longrightarrow>
   row_cond_values ex_float (configure ex_headers ''sample'' [''treatment''] vals)
     [Str s, Str t, Str a, Str b] = Inr [Num tv]"
  unfolding ex_configure
  by (simp add: row_cond_values_def ex_headers_def enumerate_eq_zip upt_rec cond_values_of_def)

lemma ex_tuples:
  "map_res (row_cond_values ex_float (configure ex_headers ''sample'' [''treatment''] vals))
     ex_rows = Inr [[Num 0], [Num 0], [Num 1], [Num 1]]"
  by (simp add: ex_rows_def ex_row_cond_values ex_float_simps)

lemma ex_pow16: "(16::real) powr (1 / 2) = 4"
proof -
  have "sqrt (16::real) = 4" using real_sqrt_abs2 [of 4] by simp
  then show ?thesis by (simp add: powr_half_sqrt)
qed

lemma ex_nf_A: "compute_nf ex_table [''geneA''] = Inr [2, 2, 8, 8]"
  by (simp add: compute_nf_def ex_table_def ex_headers_def col_sel_def compress_def py_pow_def)


lemma ex_nf_AB: "compute_nf ex_table [''geneA'', ''geneB''] = Inr [4, 4, 4, 4]"
  by (simp add: compute_nf_def ex_table_def ex_headers_def col_sel_def compress_def py_pow_def
      ex_pow16)

lemma ex_nf_AX:
  "compute_nf ex_table [''geneA'', ''geneX''] = Inr [sqrt 2, sqrt 2, sqrt 8, sqrt 8]"
  by (simp add: compute_nf_def ex_table_def ex_headers_def col_sel_def compress_def py_pow_def
      powr_half_sqrt)

lemma ex_inv_AB:
  "compute_inv_nf ex_table [''geneA'', ''geneB''] = Inr [1 / 4, 1 / 4, 1 / 4, 1 / 4]"
  by (simp add: compute_inv_nf_def ex_nf_AB py_div_def)

lemma ex_inv_other:
  "compute_inv_nf ex_other [''geneA''] = Inr [1 / 2, 1 / 2, 1 / 8, 1 / 8]"
  by (simp add: compute_inv_nf_def compute_nf_def ex_other_def ex_table_def ex_headers_def
      col_sel_def compress_def py_pow_def py_div_def)

lemma ex_control_rows: "control_rows ex_table = [0, 1]"
  by (simp add: control_rows_def ex_table_def)

lemma ex_ctl_A: "compute_inv_nf_vs_control ex_table [''geneA''] = Inr [1, 1, 1 / 4, 1 / 4]"
  by (simp add: compute_inv_nf_vs_control_def compute_inv_nf_def ex_nf_A ex_control_rows
      py_div_def py_nth_def)



lemma ex_single_ctl:
  "compute_inv_nf_vs_control ex_single [''geneA''] = Inr [1, 1 / 4, 1 / 4]"
  by (simp add: compute_inv_nf_vs_control_def compute_inv_nf_def compute_nf_def ex_single_def
      ex_headers_def col_sel_def compress_def py_pow_def control_rows_def py_div_def py_nth_def)

lemma ex_stats_const: "compute_stats [c, c] = Inr (c, 0, 0)"
  by (simp add: compute_stats_def Let_def power2_eq_square)

lemma ex_groups:
  "condition_values ex_table = [[Num 0], [Num 1]]"
  "condition_group ex_str ex_table [Num 0] = Inr [0, 1]"
  "condition_group ex_str ex_table [Num 1] = Inr [2, 3]"
  by (simp_all add: condition_values_def condition_group_def ex_table_def ex_str_def)

lemma ex_single_groups:
  "condition_values ex_single = [[Num 0], [Num 1]]"
  "condition_group ex_str ex_single [Num 0] = Inr [0]"
  by (simp_all add: condition_values_def condition_group_def ex_single_def ex_str_def)

lemma ex_cond_A:
  "compute_condition_stats ex_str ex_table [''geneA''] =
     Inr [\<lparr>cond = [Num 0], avg = 1, stddev = 0, stderr = 0, cv_intra = 0\<rparr>,
          \<lparr>cond = [Num 1], avg = 1 / 4, stddev = 0, stderr = 0, cv_intra = 0\<rparr>]"
  by (simp add: compute_condition_stats_def ex_ctl_A ex_groups py_nth_def ex_stats_const
      py_div_def numeral_2_eq_2 numeral_3_eq_3)



lemma ex_single_fails:
  "compute_condition_stats ex_str ex_single [''geneA''] = Inl ZeroDivisionError"
  by (simp add: compute_condition_stats_def ex_single_ctl ex_single_groups py_nth_def
      compute_stats_def)

lemma ex_sqrt_32: "sqrt (9 / 32) = 3 / (4 * sqrt 2)"
proof -
  have "sqrt (9 / 32 :: real) = sqrt (3 * 3) / sqrt (4 * 4 * 2)" by (simp add: real_sqrt_divide)
  also have "sqrt (3 * 3 :: real) = 3" using real_sqrt_abs2 [of 3] by simp
  also have "sqrt (4 * 4 * 2 :: real) = 4 * sqrt 2"
    using real_sqrt_abs2 [of 4] by (simp only: real_sqrt_mult)
  finally show ?thesis .
qed


lemma ex_overall_A:
  "compute_overall_stats ex_str ex_table [''geneA''] =
     Inr \<lparr>overall_avg = 5 / 8, overall_stddev = 3 / (4 * sqrt 2), cumm = 3 / 4,
          cv_inter = 6 / (5 * sqrt 2)\<rparr>"
  by (simp add: compute_overall_stats_def ex_cond_A compute_stats_def Let_def py_div_def
      power2_eq_square ex_sqrt_32)





subsection \<open>The properties on the example\<close>


text \<open>
  Claim C2 on the example, for the pair of genes.
\<close>

theorem compute_nf_geometric_mean_witness:
  "compute_nf ex_table [''geneA'', ''geneB''] = Inr [4, 4, 4, 4]
   \<and> length [4, 4, 4, 4 :: real] = length (data ex_table)
   \<and> compress (data ex_table ! 0) (col_sel ex_table [''geneA'', ''geneB'']) = map Num [2, 8]
   \<and> geometric_mean [2, 8] = 4
   \<and> prod_list [2, 8 :: real] powr (1 / real (length [''geneA'', ''geneB''])) = 4
   \<and> compute_inv_nf ex_table [''geneA'', ''geneB''] = Inr [1 / 4, 1 / 4, 1 / 4, 1 / 4]"
proof -
  note main = compute_nf_geometric_mean [OF ex_nf_AB]
  have sel: "compress (data ex_table ! 0) (col_sel ex_table [''geneA'', ''geneB''])
               = map Num [2, 8]"
    by (simp add: ex_table_def ex_headers_def col_sel_def compress_def)
  have hyp: "distinct [''geneA'', ''geneB''] \<and> set [''geneA'', ''geneB''] \<subseteq> set (headers ex_table)
        \<and> distinct (headers ex_table) \<and> length (headers ex_table) \<le> length (data ex_table ! 0)"
    by (simp add: ex_table_def ex_headers_def)
  have "0 < length (data ex_table)" by (simp add: ex_table_def)
  with main obtain vs
    where vs: "compress (data ex_table ! 0) (col_sel ex_table [''geneA'', ''geneB'']) = map Num vs"
      and pw: "0 \<le> prod_list vs \<longrightarrow>
                 [4, 4, 4, 4] ! 0 = prod_list vs powr (1 / real (length [''geneA'', ''geneB'']))"
      and gm: "distinct [''geneA'', ''geneB''] \<and> set [''geneA'', ''geneB''] \<subseteq> set (headers ex_table)
        \<and> distinct (headers ex_table) \<and> length (headers ex_table) \<le> length (data ex_table ! 0)
        \<longrightarrow> [4, 4, 4, 4] ! 0 = geometric_mean vs"
    by blast
  from vs sel have "map Num vs = map Num [2, 8]" by simp
  then have "vs = [2, 8]" by (auto simp: map_eq_Cons_conv)
  with gm hyp pw have "geometric_mean [2, 8] = 4"
    and "prod_list [2, 8 :: real] powr (1 / real (length [''geneA'', ''geneB''])) = 4"
    by simp_all
  with main sel ex_nf_AB ex_inv_AB show ?thesis by simp
qed

text \<open>
  Claim C3 on the example, with two control rows and with a single one.
\<close>

theorem control_mean_is_one_witness:
  "compute_inv_nf_vs_control ex_table [''geneA''] = Inr [1, 1, 1 / 4, 1 / 4]
   \<and> control_rows ex_table = [0, 1]
   \<and> sum_list (map (nth [1, 1, 1 / 4, 1 / 4]) [0, 1]) / real (length [0 :: nat, 1]) = (1 :: real)
   \<and> compute_inv_nf_vs_control ex_single [''geneA''] = Inr [1, 1 / 4, 1 / 4]
   \<and> control_rows ex_single = [0]
   \<and> [1, 1 / 4, 1 / 4] ! 0 = (1 :: real)"
proof -
  have c: "control_rows ex_table = [0, 1]" "control_rows ex_single = [0]"
    by (simp_all add: control_rows_def ex_table_def ex_single_def)
  have "control_rows ex_table \<noteq> []" "control_rows ex_single \<noteq> []"
    by (simp_all add: c)
  from control_mean_is_one [OF ex_ctl_A this(1)] control_mean_is_one [OF ex_single_ctl this(2)]
  show ?thesis by (simp add: c ex_ctl_A ex_single_ctl)
qed


text \<open>
  Claim C5 on the example, for the first gene.
\<close>

theorem compute_overall_stats_values_witness:
  "compute_overall_stats ex_str ex_table [''geneA''] =
     Inr \<lparr>overall_avg = 5 / 8, overall_stddev = 3 / (4 * sqrt 2), cumm = 3 / 4,
          cv_inter = 6 / (5 * sqrt 2)\<rparr>
   \<and> mean [1, 1 / 4] = 5 / 8
   \<and> sample_stddev [1, 1 / 4] = 3 / (4 * sqrt 2)
   \<and> sum_list (map (\<lambda>x. \<bar>1 - x\<bar>) [1, 1 / 4 :: real]) = 3 / 4
   \<and> (3 / (4 * sqrt 2)) / (5 / 8) = 6 / (5 * sqrt 2)"
  using compute_overall_stats_values [OF ex_overall_A] ex_overall_A
  by (auto simp: ex_cond_A)

text \<open>
  Claim C6 as the specification states it fails: with a control value that no row has, the
  table loads, the control group is empty and the code raises \<^verbatim>\<open>ZeroDivisionError\<close>.
\<close>

theorem empty_control_group_counterexample:
  "add_rows ex_float ex_str (configure ex_headers ''sample'' [''treatment''] [Num 2]) ex_rows
     = Inr ex_other
   \<and> control_rows ex_other = []
   \<and> compute_inv_nf_vs_control ex_other [''geneA''] = Inl ZeroDivisionError"
  by (simp add: ex_load_other compute_inv_nf_vs_control_def ex_inv_other)
    (simp add: control_rows_def ex_other_def)

text \<open>
  Claim C6 as the code has it, on the same table.
\<close>

theorem empty_control_group_raises_witness:
  "add_rows ex_float ex_str (configure ex_headers ''sample'' [''treatment''] [Num 2]) ex_rows
     = Inr ex_other
   \<and> map_res (row_cond_values ex_float (configure ex_headers ''sample'' [''treatment''] [Num 2]))
        ex_rows = Inr [[Num 0], [Num 0], [Num 1], [Num 1]]
   \<and> control_rows ex_other = []
   \<and> compute_inv_nf ex_other [''geneA''] = Inr [1 / 2, 1 / 2, 1 / 8, 1 / 8]
   \<and> compute_inv_nf_vs_control ex_other [''geneA''] = Inl ZeroDivisionError"
proof -
  have no_match: "\<forall>row\<in>set ex_rows.
      row_cond_values ex_float (configure ex_headers ''sample'' [''treatment''] [Num 2]) row
        \<noteq> Inr [Num 2]"
    by (simp add: ex_rows_def ex_row_cond_values ex_float_simps)
  from empty_control_group_raises
    [of ex_other "[''geneA'']" ex_float ex_str ex_headers "''sample''" "[''treatment'']"
        "[Num 2]" ex_rows]
    ex_load_other no_match
  have "control_rows ex_other = []"
    and "control_rows ex_other = [] \<longrightarrow> compute_inv_nf_vs_control ex_other [''geneA''] =
           (case compute_inv_nf ex_other [''geneA''] of
              Inl e \<Rightarrow> Inl e | Inr inv_nfs \<Rightarrow> Inl ZeroDivisionError)"
    by blast+
  then show ?thesis by (simp add: ex_load_other ex_tuples ex_inv_other)
qed

text \<open>
  Claim C7 as the specification states it fails: one number, and a condition group of one
  row, make the code raise \<^verbatim>\<open>ZeroDivisionError\<close>.
\<close>

theorem degenerate_sample_counterexample:
  "compute_stats [5] = Inl ZeroDivisionError
   \<and> cond_groups ex_single (ex_str [Num 0]) = Some [0]
   \<and> compute_condition_stats ex_str ex_single [''geneA''] = Inl ZeroDivisionError"
  by (simp add: ex_single_fails compute_stats_def) (simp add: ex_single_def ex_str_def)

text \<open>
  Claim C7 as the code has it, on the same inputs.
\<close>

theorem degenerate_sample_raises_witness:
  "length [5 :: real] < 2 \<and> (5 :: real)\<^sup>2 < 2 ^ 1023
   \<and> compute_stats [5] = Inl ZeroDivisionError
   \<and> [Num 0] \<in> set (condition_values ex_single)
   \<and> cond_groups ex_single (ex_str [Num 0]) = Some [0] \<and> length [0 :: nat] < 2
   \<and> compute_condition_stats ex_str ex_single [''geneA''] = Inl ZeroDivisionError"
proof -
  have h: "[Num 0] \<in> set (condition_values ex_single)"
    "cond_groups ex_single (ex_str [Num 0]) = Some [0]"
    by (simp_all add: condition_values_def ex_single_def ex_str_def)
  have sq: "\<forall>x \<in> set [5 :: real]. x\<^sup>2 < 2 ^ 1023" by simp
  from degenerate_sample_raises [of "[5]" "[Num 0]" ex_single ex_str "[0]" "[''geneA'']"] h sq
  have "compute_stats [5] = Inl ZeroDivisionError"
    and "\<exists>e. compute_condition_stats ex_str ex_single [''geneA''] = Inl e"
    by simp_all
  with h sq ex_single_fails show ?thesis by simp
qed


text \<open>
  Claim C10 on the example, for a gene that is not a column.
\<close>

theorem compute_nf_unknown_genes_witness:
  "set [''geneX''] \<inter> set (headers ex_table) = {}
   \<and> compute_nf ex_table [''geneX''] = Inr [1, 1, 1, 1]
   \<and> compute_nf ex_table [''geneA'', ''geneX''] = Inr [sqrt 2, sqrt 2, sqrt 8, sqrt 8]
   \<and> filter (\<lambda>g. g \<in> set (headers ex_table)) [''geneA'', ''geneX''] = [''geneA'']
   \<and> compress (data ex_table ! 0) (col_sel ex_table [''geneA'']) = map Num [2]
   \<and> sqrt 2 = root (length [''geneA'', ''geneX'']) (prod_list [2])"
proof -
  have none: "set [''geneX''] \<inter> set (headers ex_table) = {}"
    by (simp add: ex_table_def ex_headers_def)
  from compute_nf_unknown_genes [of ex_table "[''geneX'']", THEN conjunct2, THEN conjunct1] none
  have x: "compute_nf ex_table [''geneX''] = Inr [1, 1, 1, 1]"
    by (simp add: ex_table_def numeral_eq_Suc)
  have kn: "filter (\<lambda>g. g \<in> set (headers ex_table)) [''geneA'', ''geneX''] = [''geneA'']"
    by (simp add: ex_table_def ex_headers_def)
  have sel: "compress (data ex_table ! 0) (col_sel ex_table [''geneA'']) = map Num [2]"
    by (simp add: ex_table_def ex_headers_def col_sel_def compress_def)
  have rows: "0 < length (data ex_table)" by (simp add: ex_table_def)
  note mixed = compute_nf_unknown_genes [of ex_table "[''geneA'', ''geneX'']"
      "[sqrt 2, sqrt 2, sqrt 8, sqrt 8]", THEN conjunct2, THEN conjunct2, unfolded kn]
  from mixed ex_nf_AX rows obtain vs
    where vs: "compress (data ex_table ! 0) (col_sel ex_table [''geneA'']) = map Num vs"
      and r: "[sqrt 2, sqrt 2, sqrt 8, sqrt 8] ! 0
                = root (length [''geneA'', ''geneX'']) (prod_list vs)"
    by blast
  from vs sel have "map Num vs = map Num [2]" by simp
  then have "vs = [2]" by (auto simp: map_eq_Cons_conv)
  with r have "sqrt 2 = root (length [''geneA'', ''geneX'']) (prod_list [2])" by simp
  with none x ex_nf_AX kn sel show ?thesis by blast
qed

end
